theory Spec2Isabelle
  imports Main
begin

section \<open>Data model of \<open>main.go\<close>\<close>

text \<open>
  Go strings are byte sequences: \<open>len\<close> counts bytes and \<open>s[:n]\<close> slices bytes. They are
  modelled as \<open>string\<close> (a list of 8-bit \<open>char\<close>). Go's \<open>int\<close> is modelled as \<open>int\<close>: the
  code compares ports and attempt numbers and increments counters by one, so no
  wrap-around can be observed. Field names carry the name of their struct as a prefix,
  because several structs share a field name (\<open>Name\<close>, \<open>Port\<close>, \<open>Path\<close>, ...).
\<close>

record Config =
  DokployURL :: string
  DokployAPIKey :: string
  DokployToken :: string
  DokploySession :: string
  PangolinURL :: string
  PangolinAPIKey :: string
  PangolinToken :: string
  PollInterval :: int
  RetryAttempts :: int
  RetryDelay :: int
  RunOnce :: bool
  ForceSync :: bool

record DokployDomain =
  Domain_DomainID :: string
  Domain_Host :: string
  Domain_Path :: string
  Domain_Port :: int
  Domain_HTTPS :: bool
  Domain_Certificate :: string

record DokployApp =
  App_ApplicationID :: string
  App_ComposeID :: string
  App_Name :: string
  App_AppName :: string
  App_Description :: string
  App_Domains :: "DokployDomain list"
  App_Port :: int
  App_Status :: string
  App_ProjectID :: string

record DokployProject =
  Project_ProjectID :: string
  Project_Name :: string
  Project_Description :: string
  Project_Applications :: "DokployApp list"
  Project_Compose :: "DokployApp list"

record Target =
  Target_Hostname :: string
  Target_Port :: int
  Target_Method :: string
  Target_Enabled :: bool
  Target_Path :: string

record ProxyResource =
  Resource_Name :: string
  Resource_Protocol :: string
  Resource_FullDomain :: string
  Resource_SSL :: bool
  Resource_Enabled :: bool
  Resource_Targets :: "Target list"

record PangolinBlueprint =
  ProxyResources :: "ProxyResource list"

text \<open>
  Go errors as values. Every \<open>fmt.Errorf\<close> of the source is one constructor; a \<open>%w\<close> verb is
  an argument of type \<open>error\<close> (the wrapped cause). \<open>lastErr\<close> starts as \<open>nil\<close> in both retry
  loops, hence the \<open>error option\<close> of the two "all ... failed" errors.
\<close>

datatype error =
    ClientError string
  | UnmarshalError string
  | MarshalError string
  | EndpointStatus string int
  | AllEndpointsFailed "error option"
  | FailedToGetProjects error
  | DomainHostEmpty
  | NoPortAvailable string string
  | FailedToMarshalBlueprint error
  | FailedToCreateBlueprint error
  | PangolinStatus int string
  | AllAttemptsFailed int "error option"

text \<open>
  The HTTP clients are opaque collaborators: one call of \<open>Get\<close> or \<open>Post\<close> of a \<open>resty\<close>
  client is one request here, whatever the client retries inside, and its headers are
  left out. A request is answered either with a transport error (\<open>err != nil\<close>) or with
  a status code and a body.
\<close>

datatype request = GET string | POST string string

datatype http_result = TransportErr string | Response int string

text \<open>
  Everything the program takes from outside the repository: the answer of the network to a
  request (it may depend on every request issued before), the YAML encoder, the JSON
  decoder, and the Unicode case mapping \<open>strings.Map(unicode.ToLower, s)\<close> that
  \<open>strings.ToLower\<close> falls back to when the string holds a byte \<open>\<ge> 0x80\<close>.
\<close>

record Env =
  httpDo :: "request list \<Rightarrow> request \<Rightarrow> http_result"
  yamlMarshal :: "PangolinBlueprint \<Rightarrow> string + string"
  jsonUnmarshal :: "string \<Rightarrow> string + DokployProject list"
  unicodeToLower :: "string \<Rightarrow> string"

text \<open>
  The mutable state: the field \<open>processedApps\<close> of \<open>DockOtter\<close> (a Go \<open>map[string]bool\<close>),
  the requests sent so far, the pauses of \<open>time.Sleep\<close>, and a log of the invocations of
  \<open>createBlueprint\<close> with the blueprint and the result of each (\<open>None\<close> is \<open>nil\<close>).
  Log output of \<open>slog\<close> is left out, except the counters of the final line of \<open>syncApps\<close>.
\<close>

record World =
  processedApps :: "string \<rightharpoonup> bool"
  requests :: "request list"
  sleeps :: "int list"
  calls :: "(PangolinBlueprint \<times> error option) list"

record SyncCounts =
  processed :: int
  skipped :: int
  errors :: int

section \<open>Library functions of Go used by the source\<close>

text \<open>\<open>strings.ToLower\<close>: the ASCII path maps \<open>A..Z\<close> by adding \<open>'a' - 'A'\<close> to the byte.\<close>

definition asciiLower :: "char \<Rightarrow> char" where
  "asciiLower c =
     (if (65::nat) \<le> of_char c \<and> of_char c \<le> (90::nat)
      then char_of (of_char c + (32::nat)) else c)"

definition isASCII :: "string \<Rightarrow> bool" where
  "isASCII s = list_all (\<lambda>c. of_char c < (128::nat)) s"

definition ToLower :: "Env \<Rightarrow> string \<Rightarrow> string" where
  "ToLower env s = (if isASCII s then map asciiLower s else unicodeToLower env s)"

text \<open>
  \<open>strings.ReplaceAll\<close>: every non-overlapping instance of \<open>old\<close>, from the left, becomes
  \<open>new\<close>. For an empty \<open>old\<close> Go inserts \<open>new\<close> around every UTF-8 sequence; the model
  does so around every byte (the source never passes an empty \<open>old\<close>).
\<close>

function ReplaceAll :: "string \<Rightarrow> string \<Rightarrow> string \<Rightarrow> string" where
  "ReplaceAll s old new =
     (if s = [] then (if old = [] then new else [])
      else if old = [] then new @ [hd s] @ ReplaceAll (tl s) old new
      else if take (length old) s = old then new @ ReplaceAll (drop (length old) s) old new
      else hd s # ReplaceAll (tl s) old new)"
  by pat_completeness auto
termination
  by (relation "measure (\<lambda>(s, old, new). length s)") auto

declare ReplaceAll.simps [simp del]

text \<open>Indexing a \<open>map[string]bool\<close>: a missing key reads as \<open>false\<close>.\<close>

definition mapIndex :: "(string \<rightharpoonup> bool) \<Rightarrow> string \<Rightarrow> bool" where
  "mapIndex m k = (case m k of None \<Rightarrow> False | Some b \<Rightarrow> b)"

section \<open>The functions of \<open>main.go\<close>\<close>

text \<open>\<open>NewDockOtter\<close>: the state of a fresh process, \<open>processedApps\<close> made empty.\<close>

definition NewDockOtter :: World where
  "NewDockOtter = \<lparr>processedApps = Map.empty, requests = [], sleeps = [], calls = []\<rparr>"

definition generateResourceName :: "Env \<Rightarrow> string \<Rightarrow> string \<Rightarrow> string" where
  "generateResourceName env appName domain =
     (let name = appName @ ''-'' @ domain;
          name = ToLower env name;
          name = ReplaceAll name ''.'' ''-'';
          name = ReplaceAll name ''_'' ''-''
      in if length name > 63 then take 63 name else name)"

definition resolveTargetPort :: "DokployApp \<Rightarrow> DokployDomain \<Rightarrow> int" where
  "resolveTargetPort app domain =
     (if Domain_Port domain > 0 then Domain_Port domain
      else if App_Port app > 0 then App_Port app
      else if Domain_HTTPS domain then 443
      else 80)"

definition endpoints :: "string list" where
  "endpoints = [''/api/projects'', ''/api/project/all'', ''/api/project'', ''/api/applications'']"

text \<open>The loop of \<open>getDokployProjects\<close> over the remaining endpoints, \<open>lastErr\<close> carried along.\<close>

fun tryEndpoints ::
  "Env \<Rightarrow> Config \<Rightarrow> string list \<Rightarrow> error option \<Rightarrow> World
     \<Rightarrow> (error + DokployProject list) \<times> World" where
  "tryEndpoints env cfg [] lastErr w = (Inl (AllEndpointsFailed lastErr), w)"
| "tryEndpoints env cfg (endpoint # rest) lastErr w =
     (let req = GET (DokployURL cfg @ endpoint);
          w' = w\<lparr>requests := requests w @ [req]\<rparr>
      in case httpDo env (requests w) req of
           TransportErr e \<Rightarrow> tryEndpoints env cfg rest (Some (ClientError e)) w'
         | Response status body \<Rightarrow>
             if status = 200 then
               (case jsonUnmarshal env body of
                  Inl e \<Rightarrow> tryEndpoints env cfg rest (Some (UnmarshalError e)) w'
                | Inr projects \<Rightarrow> (Inr projects, w'))
             else tryEndpoints env cfg rest (Some (EndpointStatus endpoint status)) w')"

definition getDokployProjects ::
  "Env \<Rightarrow> Config \<Rightarrow> World \<Rightarrow> (error + DokployProject list) \<times> World" where
  "getDokployProjects env cfg w = tryEndpoints env cfg endpoints None w"

definition createBlueprintResult ::
  "Env \<Rightarrow> Config \<Rightarrow> PangolinBlueprint \<Rightarrow> World \<Rightarrow> error option \<times> World" where
  "createBlueprintResult env cfg blueprint w =
     (case yamlMarshal env blueprint of
        Inl e \<Rightarrow> (Some (FailedToMarshalBlueprint (MarshalError e)), w)
      | Inr yamlData \<Rightarrow>
          (let req = POST (PangolinURL cfg @ ''/v1/blueprints'') yamlData;
               w' = w\<lparr>requests := requests w @ [req]\<rparr>
           in case httpDo env (requests w) req of
                TransportErr e \<Rightarrow> (Some (FailedToCreateBlueprint (ClientError e)), w')
              | Response status body \<Rightarrow>
                  if status < 200 \<or> status \<ge> 300
                  then (Some (PangolinStatus status body), w')
                  else (None, w')))"

text \<open>\<open>createBlueprint\<close>, with its invocation and result appended to the log \<open>calls\<close>.\<close>

definition createBlueprint ::
  "Env \<Rightarrow> Config \<Rightarrow> PangolinBlueprint \<Rightarrow> World \<Rightarrow> error option \<times> World" where
  "createBlueprint env cfg blueprint w =
     (case createBlueprintResult env cfg blueprint w of
        (r, w') \<Rightarrow> (r, w'\<lparr>calls := calls w' @ [(blueprint, r)]\<rparr>))"

text \<open>The loop of \<open>createBlueprintWithRetry\<close>, from the attempt number \<open>attempt\<close> on.\<close>

function retryLoop ::
  "Env \<Rightarrow> Config \<Rightarrow> PangolinBlueprint \<Rightarrow> int \<Rightarrow> error option \<Rightarrow> World
     \<Rightarrow> error option \<times> World" where
  "retryLoop env cfg blueprint attempt lastErr w =
     (if attempt \<le> RetryAttempts cfg then
        (case createBlueprint env cfg blueprint w of
           (None, w') \<Rightarrow> (None, w')
         | (Some err, w') \<Rightarrow>
             retryLoop env cfg blueprint (attempt + 1) (Some err)
               (if attempt < RetryAttempts cfg
                then w'\<lparr>sleeps := sleeps w' @ [RetryDelay cfg]\<rparr> else w'))
      else (Some (AllAttemptsFailed (RetryAttempts cfg) lastErr), w))"
  by pat_completeness auto
termination
  by (relation "measure (\<lambda>(env, cfg, blueprint, attempt, lastErr, w).
                  nat (RetryAttempts cfg + 1 - attempt))") auto

declare retryLoop.simps [simp del]

definition createBlueprintWithRetry ::
  "Env \<Rightarrow> Config \<Rightarrow> PangolinBlueprint \<Rightarrow> World \<Rightarrow> error option \<times> World" where
  "createBlueprintWithRetry env cfg blueprint w = retryLoop env cfg blueprint 1 None w"

definition processAppDomain ::
  "Env \<Rightarrow> Config \<Rightarrow> DokployApp \<Rightarrow> DokployDomain \<Rightarrow> World \<Rightarrow> error option \<times> World" where
  "processAppDomain env cfg app domain w =
     (let resourceName = generateResourceName env (App_Name app) (Domain_Host domain)
      in if \<not> ForceSync cfg \<and> mapIndex (processedApps w) resourceName then (None, w)
         else if Domain_Host domain = [] then (Some DomainHostEmpty, w)
         else
           (let targetPort = resolveTargetPort app domain
            in if targetPort = 0
               then (Some (NoPortAvailable (App_Name app) (Domain_Host domain)), w)
               else
                 (let targetMethod = (if Domain_HTTPS domain then ''https'' else ''http'');
                      targetHostname = App_AppName app;
                      targetPath = (if Domain_Path domain \<noteq> [] \<and> Domain_Path domain \<noteq> ''/''
                                    then Domain_Path domain else ''/'');
                      blueprint = \<lparr>ProxyResources =
                        [\<lparr>Resource_Name = resourceName,
                          Resource_Protocol = ''http'',
                          Resource_FullDomain = Domain_Host domain,
                          Resource_SSL = Domain_HTTPS domain,
                          Resource_Enabled = True,
                          Resource_Targets =
                            [\<lparr>Target_Hostname = targetHostname,
                              Target_Port = targetPort,
                              Target_Method = targetMethod,
                              Target_Enabled = True,
                              Target_Path = targetPath\<rparr>]\<rparr>]\<rparr>
                  in case createBlueprintWithRetry env cfg blueprint w of
                       (Some err, w') \<Rightarrow> (Some (FailedToCreateBlueprint err), w')
                     | (None, w') \<Rightarrow>
                         (None, w'\<lparr>processedApps :=
                                     (processedApps w')(resourceName \<mapsto> True)\<rparr>))))"

text \<open>The loop of \<open>syncApps\<close> over the domains of one application.\<close>

fun processDomains ::
  "Env \<Rightarrow> Config \<Rightarrow> DokployApp \<Rightarrow> DokployDomain list \<Rightarrow> SyncCounts \<Rightarrow> World
     \<Rightarrow> SyncCounts \<times> World" where
  "processDomains env cfg app [] c w = (c, w)"
| "processDomains env cfg app (domain # rest) c w =
     (case processAppDomain env cfg app domain w of
        (Some err, w') \<Rightarrow> processDomains env cfg app rest (c\<lparr>errors := errors c + 1\<rparr>) w'
      | (None, w') \<Rightarrow> processDomains env cfg app rest (c\<lparr>processed := processed c + 1\<rparr>) w')"

text \<open>
  The loop over one group of applications. The source has this loop twice, over
  \<open>project.Applications\<close> and over \<open>project.Compose\<close>, with different log messages only.
\<close>

fun processApps ::
  "Env \<Rightarrow> Config \<Rightarrow> DokployApp list \<Rightarrow> SyncCounts \<Rightarrow> World \<Rightarrow> SyncCounts \<times> World" where
  "processApps env cfg [] c w = (c, w)"
| "processApps env cfg (app # rest) c w =
     (if App_Status app \<noteq> ''done''
      then processApps env cfg rest (c\<lparr>skipped := skipped c + 1\<rparr>) w
      else if length (App_Domains app) = 0
      then processApps env cfg rest (c\<lparr>skipped := skipped c + 1\<rparr>) w
      else (case processDomains env cfg app (App_Domains app) c w of
              (c', w') \<Rightarrow> processApps env cfg rest c' w'))"

fun processProjects ::
  "Env \<Rightarrow> Config \<Rightarrow> DokployProject list \<Rightarrow> SyncCounts \<Rightarrow> World \<Rightarrow> SyncCounts \<times> World" where
  "processProjects env cfg [] c w = (c, w)"
| "processProjects env cfg (project # rest) c w =
     (case processApps env cfg (Project_Applications project) c w of
        (c', w') \<Rightarrow>
          (case processApps env cfg (Project_Compose project) c' w' of
             (c'', w'') \<Rightarrow> processProjects env cfg rest c'' w''))"

text \<open>
  \<open>syncApps\<close> returns an error only; the counters it logs at the end of a pass are
  returned here as the value of a successful pass.
\<close>

definition syncApps :: "Env \<Rightarrow> Config \<Rightarrow> World \<Rightarrow> (error + SyncCounts) \<times> World" where
  "syncApps env cfg w =
     (case getDokployProjects env cfg w of
        (Inl err, w') \<Rightarrow> (Inl (FailedToGetProjects err), w')
      | (Inr projects, w') \<Rightarrow>
          (case processProjects env cfg projects \<lparr>processed = 0, skipped = 0, errors = 0\<rparr> w' of
             (c, w'') \<Rightarrow> (Inr c, w'')))"

text \<open>
  \<open>validateConfig\<close>, called by \<open>main\<close> before anything runs; \<open>5 * time.Second\<close> is
  \<open>5000000000\<close> nanoseconds. The messages stand for the \<open>fmt.Errorf\<close> of each check.
\<close>

definition validateConfig :: "Config \<Rightarrow> string option" where
  "validateConfig cfg =
     (if DokployURL cfg = [] then Some ''DOKPLOY_URL is required''
      else if PangolinURL cfg = [] then Some ''PANGOLIN_URL is required''
      else if \<not> (PangolinToken cfg \<noteq> [] \<or> PangolinAPIKey cfg \<noteq> [])
      then Some ''Pangolin authentication required (PANGOLIN_TOKEN or PANGOLIN_API_KEY)''
      else if \<not> RunOnce cfg \<and> PollInterval cfg < 5 * 1000000000
      then Some ''POLL_INTERVAL must be at least 5 seconds''
      else if RetryAttempts cfg < 1 \<or> RetryAttempts cfg > 10
      then Some ''RETRY_ATTEMPTS must be between 1 and 10''
      else None)"

definition testConnectivity :: "Env \<Rightarrow> Config \<Rightarrow> World \<Rightarrow> error option \<times> World" where
  "testConnectivity env cfg w =
     (case getDokployProjects env cfg w of
        (Inl err, w') \<Rightarrow> (Some err, w')
      | (Inr projects, w') \<Rightarrow>
          (None, w'\<lparr>requests := requests w' @ [GET (PangolinURL cfg @ ''/v1/docs'')]\<rparr>))"

text \<open>
  The \<open>for\<close>/\<open>select\<close> loop of \<open>Run\<close>: one pass for each tick of the ticker; \<open>ticks\<close> is the
  number of ticks that arrive before the context is cancelled. The result of a pass is
  logged only.
\<close>

fun tickerLoop :: "Env \<Rightarrow> Config \<Rightarrow> nat \<Rightarrow> World \<Rightarrow> World" where
  "tickerLoop env cfg 0 w = w"
| "tickerLoop env cfg (Suc ticks) w = tickerLoop env cfg ticks (snd (syncApps env cfg w))"

definition Run :: "Env \<Rightarrow> Config \<Rightarrow> nat \<Rightarrow> World \<Rightarrow> World" where
  "Run env cfg ticks w =
     (let w1 = snd (testConnectivity env cfg w);
          w2 = snd (syncApps env cfg w1)
      in tickerLoop env cfg ticks w2)"

text \<open>
  \<open>main\<close> after the command-line flags and \<open>loadConfig\<close>: the state of the process when it
  ends, for the configuration \<open>cfg\<close> read from the environment.
\<close>

definition mainProcess :: "Env \<Rightarrow> Config \<Rightarrow> nat \<Rightarrow> World" where
  "mainProcess env cfg ticks =
     (if validateConfig cfg \<noteq> None then NewDockOtter
      else if RunOnce cfg then snd (syncApps env cfg NewDockOtter)
      else Run env cfg ticks NewDockOtter)"

section \<open>The specification's wording\<close>

text \<open>
  The naming rule as the specification words it: concatenate, lowercase, replace every
  \<open>.\<close> and \<open>_\<close> by \<open>-\<close>, keep the first 63 characters if the name is longer. A name is
  UTF-8 text: a byte \<open>10xxxxxx\<close> continues a character and every other byte starts one,
  so the characters of a name are counted by the bytes that start one, and the first \<open>n\<close>
  characters end where character \<open>n + 1\<close> would start.
\<close>

definition dashed :: "char \<Rightarrow> char" where
  "dashed c = (if c = CHR ''.'' \<or> c = CHR ''_'' then CHR ''-'' else c)"

definition isContinuation :: "char \<Rightarrow> bool" where
  "isContinuation c = ((128::nat) \<le> of_char c \<and> of_char c < (192::nat))"

definition characters :: "string \<Rightarrow> nat" where
  "characters s = length (filter (\<lambda>c. \<not> isContinuation c) s)"

fun takeCharacters :: "nat \<Rightarrow> string \<Rightarrow> string" where
  "takeCharacters n [] = []"
| "takeCharacters n (c # s) =
     (if isContinuation c then c # takeCharacters n s
      else (case n of 0 \<Rightarrow> [] | Suc m \<Rightarrow> c # takeCharacters m s))"

definition spec_resource_name :: "Env \<Rightarrow> string \<Rightarrow> string \<Rightarrow> string" where
  "spec_resource_name env applicationName domainHost =
     (let full = map dashed (ToLower env (applicationName @ ''-'' @ domainHost))
      in if characters full > 63 then takeCharacters 63 full else full)"

text \<open>The same rule with bytes in the place of characters, as \<open>len\<close> and slicing count.\<close>

definition byte_resource_name :: "Env \<Rightarrow> string \<Rightarrow> string \<Rightarrow> string" where
  "byte_resource_name env applicationName domainHost =
     (let full = map dashed (ToLower env (applicationName @ ''-'' @ domainHost))
      in if length full > 63 then take 63 full else full)"

section \<open>Notions used to state the properties\<close>

text \<open>
  One candidate endpoint of \<open>getDokployProjects\<close>: the request it sends and what the body
  of the loop makes of the answer, when \<open>history\<close> holds the requests sent before.
\<close>

definition endpointRequest :: "Config \<Rightarrow> string \<Rightarrow> request" where
  "endpointRequest cfg endpoint = GET (DokployURL cfg @ endpoint)"

definition candidate ::
  "Env \<Rightarrow> Config \<Rightarrow> request list \<Rightarrow> string \<Rightarrow> error + DokployProject list" where
  "candidate env cfg history endpoint =
     (case httpDo env history (endpointRequest cfg endpoint) of
        TransportErr e \<Rightarrow> Inl (ClientError e)
      | Response status body \<Rightarrow>
          if status = 200 then
            (case jsonUnmarshal env body of
               Inl e \<Rightarrow> Inl (UnmarshalError e)
             | Inr projects \<Rightarrow> Inr projects)
          else Inl (EndpointStatus endpoint status))"

text \<open>
  The candidate number \<open>i\<close> (from 0) of a fetch that starts in the state \<open>w\<close>, the
  candidates before it having been tried.
\<close>

definition candidateAt :: "Env \<Rightarrow> Config \<Rightarrow> World \<Rightarrow> nat \<Rightarrow> error + DokployProject list" where
  "candidateAt env cfg w i =
     candidate env cfg (requests w @ map (endpointRequest cfg) (take i endpoints)) (endpoints ! i)"

text \<open>The blueprint that \<open>processAppDomain\<close> builds for a binding, and its resource name.\<close>

definition derivedBlueprint :: "Env \<Rightarrow> DokployApp \<Rightarrow> DokployDomain \<Rightarrow> PangolinBlueprint" where
  "derivedBlueprint env app domain =
     \<lparr>ProxyResources =
        [\<lparr>Resource_Name = generateResourceName env (App_Name app) (Domain_Host domain),
          Resource_Protocol = ''http'',
          Resource_FullDomain = Domain_Host domain,
          Resource_SSL = Domain_HTTPS domain,
          Resource_Enabled = True,
          Resource_Targets =
            [\<lparr>Target_Hostname = App_AppName app,
              Target_Port = resolveTargetPort app domain,
              Target_Method = (if Domain_HTTPS domain then ''https'' else ''http''),
              Target_Enabled = True,
              Target_Path = (if Domain_Path domain \<noteq> [] \<and> Domain_Path domain \<noteq> ''/''
                             then Domain_Path domain else ''/'')\<rparr>]\<rparr>]\<rparr>"

definition resourceName :: "Env \<Rightarrow> DokployApp \<times> DokployDomain \<Rightarrow> string" where
  "resourceName env b = generateResourceName env (App_Name (fst b)) (Domain_Host (snd b))"

text \<open>
  The resource names of the invocations of \<open>createBlueprint\<close> that returned \<open>nil\<close>, in
  order: the successful publishes of the log.
\<close>

definition publishedNames :: "(PangolinBlueprint \<times> error option) list \<Rightarrow> string list" where
  "publishedNames cs =
     concat (map (\<lambda>(bp, r). if r = None then map Resource_Name (ProxyResources bp) else []) cs)"

text \<open>
  The invariant of the ledger: a name was published at most once, and not at all unless
  the ledger holds it.
\<close>

definition publishedOnce :: "World \<Rightarrow> bool" where
  "publishedOnce w =
     (\<forall>n. count_list (publishedNames (calls w)) n
            \<le> (if mapIndex (processedApps w) n then 1 else 0))"







definition tally :: "error option list \<Rightarrow> int \<Rightarrow> SyncCounts \<Rightarrow> SyncCounts" where
  "tally rs k c =
     c\<lparr>processed := processed c + int (length (filter (\<lambda>r. r = None) rs)),
       skipped := skipped c + k,
       errors := errors c + int (length (filter (\<lambda>r. r \<noteq> None) rs))\<rparr>"

section \<open>Concrete inputs\<close>

text \<open>The default configuration of \<open>loadConfig\<close>, with a token for the target.\<close>

definition sampleConfig :: Config where
  "sampleConfig =
     \<lparr>DokployURL = ''http://dokploy:3000'', DokployAPIKey = ''key'', DokployToken = [],
       DokploySession = [], PangolinURL = ''http://pangolin:3001'', PangolinAPIKey = [],
       PangolinToken = ''token'', PollInterval = 30000000000, RetryAttempts = 3,
       RetryDelay = 5000000000, RunOnce = False, ForceSync = False\<rparr>"

definition sampleDomain :: "string \<Rightarrow> DokployDomain" where
  "sampleDomain host =
     \<lparr>Domain_DomainID = ''d1'', Domain_Host = host, Domain_Path = ''/'', Domain_Port = 0,
       Domain_HTTPS = True, Domain_Certificate = []\<rparr>"

definition sampleApp :: "string \<Rightarrow> DokployDomain list \<Rightarrow> DokployApp" where
  "sampleApp name domains =
     \<lparr>App_ApplicationID = ''a1'', App_ComposeID = [], App_Name = name,
       App_AppName = name @ ''-svc'', App_Description = [], App_Domains = domains,
       App_Port = 3000, App_Status = ''done'', App_ProjectID = ''p1''\<rparr>"

text \<open>
  An inventory of three bindings, one of them without a host, and an inventory where the
  binding without a host has the resource name of the binding before it
  (\<open>api-v2-\<close>, from \<open>api\<close> with \<open>v2.\<close> and from \<open>api-v2\<close> with the empty host).
\<close>

definition sampleProjects :: "DokployProject list" where
  "sampleProjects =
     [\<lparr>Project_ProjectID = ''p1'', Project_Name = ''demo'', Project_Description = [],
        Project_Applications = [sampleApp ''web'' [sampleDomain ''a.io'', sampleDomain []]],
        Project_Compose = [sampleApp ''db'' [sampleDomain ''b.io'']]\<rparr>]"

definition collidingProjects :: "DokployProject list" where
  "collidingProjects =
     [\<lparr>Project_ProjectID = ''p1'', Project_Name = ''demo'', Project_Description = [],
        Project_Applications =
          [sampleApp ''api'' [sampleDomain ''v2.''], sampleApp ''api-v2'' [sampleDomain []]],
        Project_Compose = []\<rparr>]"

text \<open>
  A source that knows the second candidate endpoint only and serves \<open>projects\<close> there,
  with a target that accepts every blueprint; and a network where every request is
  answered by a status from 500 on, one higher at each request.
\<close>

definition envServing :: "DokployProject list \<Rightarrow> Env" where
  "envServing projects =
     \<lparr>httpDo = (\<lambda>history req.
         case req of
           GET url \<Rightarrow> if url = ''http://dokploy:3000/api/project/all''
                      then Response 200 ''inventory'' else Response 404 []
         | POST url body \<Rightarrow> Response 200 []),
       yamlMarshal = (\<lambda>bp. Inr ''yaml''),
       jsonUnmarshal = (\<lambda>body. if body = ''inventory'' then Inr projects
                                else Inl ''unexpected end of JSON input''),
       unicodeToLower = (\<lambda>s. s)\<rparr>"

definition envFailing :: Env where
  "envFailing =
     \<lparr>httpDo = (\<lambda>history req. Response (500 + int (length history)) ''busy''),
       yamlMarshal = (\<lambda>bp. Inr ''yaml''),
       jsonUnmarshal = (\<lambda>body. Inl ''unexpected end of JSON input''),
       unicodeToLower = (\<lambda>s. s)\<rparr>"



text \<open>
  The Unicode mapping of these environments returns its argument, which is the value of
  \<open>strings.ToLower\<close> on a string without an upper-case letter. They are applied to one
  name with bytes from \<open>0x80\<close> on: forty times the lower-case letter \<open>e\<close> with an acute
  accent, \<open>U+00E9\<close>, of the two bytes \<open>C3 A9\<close> in UTF-8.
\<close>

definition accentedName :: string where
  "accentedName = concat (replicate 40 [CHR 0xC3, CHR 0xA9])"

text \<open>
  The state after the first binding of \<open>collidingProjects\<close> was processed in a fresh
  process and accepted by the target.
\<close>

definition collidingLedger :: World where
  "collidingLedger =
     snd (processAppDomain (envServing collidingProjects) sampleConfig
            (sampleApp ''api'' [sampleDomain ''v2.'']) (sampleDomain ''v2.'') NewDockOtter)"

section \<open>Naming and port resolution\<close>

lemma ReplaceAll_single:
  "ReplaceAll s [c] [d] = map (\<lambda>x. if x = c then d else x) s"
proof (induction s)
  case Nil
  show ?case by (subst ReplaceAll.simps) simp
next
  case (Cons a s)
  show ?case
    by (subst ReplaceAll.simps) (simp add: Cons.IH)
qed

lemma generateResourceName_eq:
  "generateResourceName env a h = byte_resource_name env a h"
proof -
  have "map (\<lambda>x. if x = CHR ''_'' then CHR ''-'' else x)
          (map (\<lambda>x. if x = CHR ''.'' then CHR ''-'' else x) s) = map dashed s" for s
    by (induction s) (auto simp: dashed_def)
  then show ?thesis
    unfolding generateResourceName_def byte_resource_name_def Let_def
    by (simp add: ReplaceAll_single del: map_map)
qed

lemma isASCII_characters: "isASCII s \<Longrightarrow> characters s = length s"
  by (induction s) (simp_all add: isASCII_def characters_def isContinuation_def)

lemma isASCII_takeCharacters: "isASCII s \<Longrightarrow> takeCharacters n s = take n s"
  by (induction s arbitrary: n)
     (simp_all add: isASCII_def isContinuation_def split: nat.splits)

lemma asciiLower_ascii: "of_char c < (128::nat) \<Longrightarrow> of_char (asciiLower c) < (128::nat)"
  by (simp add: asciiLower_def)

lemma dashed_ascii: "of_char c < (128::nat) \<Longrightarrow> of_char (dashed c) < (128::nat)"
  by (simp add: dashed_def)

lemma isASCII_full:
  "isASCII s \<Longrightarrow> isASCII (map dashed (ToLower env s))"
  by (simp add: isASCII_def ToLower_def list_all_iff asciiLower_ascii dashed_ascii)

lemma spec_resource_name_ascii:
  "isASCII (a @ ''-'' @ h) \<Longrightarrow> spec_resource_name env a h = byte_resource_name env a h"
proof -
  assume "isASCII (a @ ''-'' @ h)"
  then have "isASCII (map dashed (ToLower env (a @ ''-'' @ h)))"
    by (rule isASCII_full)
  then show ?thesis
    by (simp add: spec_resource_name_def byte_resource_name_def Let_def
          isASCII_characters isASCII_takeCharacters)
qed

text \<open>
  C1. For every domain port, application port and TLS flag, the resolved port is the
  domain port if it is positive, else the application port if it is positive, else 443
  for a TLS binding and 80 otherwise; with both ports 0 and TLS on it is 443.
\<close>

theorem resolveTargetPort_priority:
  "resolveTargetPort (app\<lparr>App_Port := appPort\<rparr>)
       (domain\<lparr>Domain_Port := domainPort, Domain_HTTPS := https\<rparr>)
     = (if domainPort > 0 then domainPort
        else if appPort > 0 then appPort
        else if https then 443 else 80)
   \<and> resolveTargetPort (app\<lparr>App_Port := 0\<rparr>)
         (domain\<lparr>Domain_Port := 0, Domain_HTTPS := True\<rparr>) = 443"
  by (simp add: resolveTargetPort_def)

text \<open>
  C2, as amended. The resource name of an application name and a domain host is their
  concatenation with \<open>-\<close> between, lowercased, every \<open>.\<close> and \<open>_\<close> replaced by \<open>-\<close>, cut
  to its first 63 bytes when it has more than 63 bytes; it never has more than 63 bytes,
  and the name for \<open>MyApp\<close> and \<open>Example.COM\<close> is \<open>myapp-example-com\<close>. When the two
  inputs hold ASCII characters only, bytes are characters and the name is the one of the
  specification's rule. The rule with characters fails on a name of 42 characters, forty
  of them of two bytes: it is cut to 63 bytes, in the middle of a character.
\<close>

theorem generateResourceName_spec:
  "generateResourceName env applicationName domainHost
     = byte_resource_name env applicationName domainHost
   \<and> length (generateResourceName env applicationName domainHost) \<le> 63
   \<and> (63 < length (map dashed (ToLower env (applicationName @ ''-'' @ domainHost)))
        \<longrightarrow> length (generateResourceName env applicationName domainHost) = 63)
   \<and> (isASCII (applicationName @ ''-'' @ domainHost)
        \<longrightarrow> generateResourceName env applicationName domainHost
            = spec_resource_name env applicationName domainHost)
   \<and> generateResourceName env ''MyApp'' ''Example.COM'' = ''myapp-example-com''"
proof -
  have ex: "generateResourceName env ''MyApp'' ''Example.COM'' = ''myapp-example-com''"
    by code_simp
  have bytes: "generateResourceName env applicationName domainHost
                = byte_resource_name env applicationName domainHost"
    by (rule generateResourceName_eq)
  have len: "length (generateResourceName env applicationName domainHost) \<le> 63"
    by (simp add: bytes byte_resource_name_def Let_def)
  have exact: "63 < length (map dashed (ToLower env (applicationName @ ''-'' @ domainHost)))
        \<longrightarrow> length (generateResourceName env applicationName domainHost) = 63"
    by (simp add: bytes byte_resource_name_def Let_def)
  have ascii: "isASCII (applicationName @ ''-'' @ domainHost)
        \<longrightarrow> generateResourceName env applicationName domainHost
            = spec_resource_name env applicationName domainHost"
    by (simp add: bytes spec_resource_name_ascii del: append.simps)
  show ?thesis
    by (intro conjI) (rule bytes len exact ascii ex)+
qed

theorem generateResourceName_spec_witness:
  "generateResourceName envFailing (replicate 70 (CHR ''A'')) ''x.y'' = replicate 63 (CHR ''a'')
   \<and> length (generateResourceName envFailing (replicate 70 (CHR ''A'')) ''x.y'') = 63
   \<and> spec_resource_name envFailing (replicate 70 (CHR ''A'')) ''x.y'' = replicate 63 (CHR ''a'')"
proof -
  note inst = generateResourceName_spec [of envFailing "replicate 70 (CHR ''A'')" "''x.y''"]
  have s: "byte_resource_name envFailing (replicate 70 (CHR ''A'')) ''x.y''
             = replicate 63 (CHR ''a'')"
    by code_simp
  have long: "63 < length (map dashed (ToLower envFailing (replicate 70 (CHR ''A'') @ ''-'' @ ''x.y'')))"
    by code_simp
  have plain: "isASCII (replicate 70 (CHR ''A'') @ ''-'' @ ''x.y'')"
    by code_simp
  have g: "generateResourceName envFailing (replicate 70 (CHR ''A'')) ''x.y''
             = byte_resource_name envFailing (replicate 70 (CHR ''A'')) ''x.y''"
    by (rule inst [THEN conjunct1])
  have l: "length (generateResourceName envFailing (replicate 70 (CHR ''A'')) ''x.y'') = 63"
    using inst [THEN conjunct2, THEN conjunct2, THEN conjunct1] long by (rule mp)
  have c: "generateResourceName envFailing (replicate 70 (CHR ''A'')) ''x.y''
             = spec_resource_name envFailing (replicate 70 (CHR ''A'')) ''x.y''"
    using inst [THEN conjunct2, THEN conjunct2, THEN conjunct2, THEN conjunct1] plain
    by (rule mp)
  from g s l c show ?thesis
    by simp
qed

theorem generateResourceName_spec_counterexample:
  "characters (accentedName @ ''-'' @ ''x'') = 42
   \<and> spec_resource_name envFailing accentedName ''x'' = accentedName @ ''-x''
   \<and> generateResourceName envFailing accentedName ''x''
       = concat (replicate 31 [CHR 0xC3, CHR 0xA9]) @ [CHR 0xC3]
   \<and> generateResourceName envFailing accentedName ''x''
       \<noteq> spec_resource_name envFailing accentedName ''x''"
  by code_simp

text \<open>
  C7. Port resolution yields a positive integer for every application and binding, so
  processing a binding never fails with the "no port available" error.
\<close>

theorem resolveTargetPort_positive:
  "0 < resolveTargetPort app domain
   \<and> (\<forall>a h. fst (processAppDomain env cfg app domain w) \<noteq> Some (NoPortAvailable a h))"
proof -
  have pos: "0 < resolveTargetPort app domain"
    by (simp add: resolveTargetPort_def)
  then have "resolveTargetPort app domain \<noteq> 0"
    by simp
  then have "fst (processAppDomain env cfg app domain w) \<noteq> Some (NoPortAvailable a h)" for a h
    by (simp add: processAppDomain_def Let_def split: prod.splits option.splits)
  with pos show ?thesis
    by blast
qed


section \<open>Lemmas on the loops\<close>

lemma tryEndpoints_Cons:
  "tryEndpoints env cfg (ep # rest) lastErr w =
     (case candidate env cfg (requests w) ep of
        Inl e \<Rightarrow> tryEndpoints env cfg rest (Some e) (w\<lparr>requests := requests w @ [endpointRequest cfg ep]\<rparr>)
      | Inr ps \<Rightarrow> (Inr ps, w\<lparr>requests := requests w @ [endpointRequest cfg ep]\<rparr>))"
  by (simp add: candidate_def endpointRequest_def Let_def split: http_result.splits sum.splits)

declare tryEndpoints.simps(2) [simp del]

lemma tryEndpoints_all_fail:
  "(\<And>i. i < length eps \<Longrightarrow>
        isl (candidate env cfg (requests w @ map (endpointRequest cfg) (take i eps)) (eps ! i)))
   \<Longrightarrow> tryEndpoints env cfg eps lastErr w =
       (Inl (AllEndpointsFailed
              (if eps = [] then lastErr
               else Some (projl (candidate env cfg
                            (requests w @ map (endpointRequest cfg) (butlast eps)) (last eps))))),
        w\<lparr>requests := requests w @ map (endpointRequest cfg) eps\<rparr>)"
proof (induction eps arbitrary: lastErr w)
  case Nil
  show ?case by simp
next
  case (Cons ep rest)
  let ?w' = "w\<lparr>requests := requests w @ [endpointRequest cfg ep]\<rparr>"
  from Cons.prems [of 0] obtain e where e: "candidate env cfg (requests w) ep = Inl e"
    by (cases "candidate env cfg (requests w) ep") auto
  have rest: "isl (candidate env cfg (requests ?w' @ map (endpointRequest cfg) (take i rest)) (rest ! i))"
    if "i < length rest" for i
    using Cons.prems [of "Suc i"] that by simp
  have "tryEndpoints env cfg (ep # rest) lastErr w = tryEndpoints env cfg rest (Some e) ?w'"
    by (simp only: tryEndpoints_Cons e sum.case)
  also have "\<dots> = (Inl (AllEndpointsFailed
              (if rest = [] then Some e
               else Some (projl (candidate env cfg
                            (requests ?w' @ map (endpointRequest cfg) (butlast rest)) (last rest))))),
        ?w'\<lparr>requests := requests ?w' @ map (endpointRequest cfg) rest\<rparr>)"
    by (rule Cons.IH) (rule rest)
  finally show ?case
    by (simp add: e)
qed

lemma tryEndpoints_first_success:
  "k < length eps \<Longrightarrow>
   (\<And>i. i < k \<Longrightarrow>
        isl (candidate env cfg (requests w @ map (endpointRequest cfg) (take i eps)) (eps ! i)))
   \<Longrightarrow> candidate env cfg (requests w @ map (endpointRequest cfg) (take k eps)) (eps ! k) = Inr ps
   \<Longrightarrow> tryEndpoints env cfg eps lastErr w =
       (Inr ps, w\<lparr>requests := requests w @ map (endpointRequest cfg) (take (Suc k) eps)\<rparr>)"
proof (induction eps arbitrary: k lastErr w)
  case Nil
  then show ?case by simp
next
  case (Cons ep rest)
  let ?w' = "w\<lparr>requests := requests w @ [endpointRequest cfg ep]\<rparr>"
  show ?case
  proof (cases k)
    case 0
    with Cons.prems(3) show ?thesis
      by (simp add: tryEndpoints_Cons)
  next
    case (Suc j)
    from Cons.prems(2) [of 0] Suc obtain e where e: "candidate env cfg (requests w) ep = Inl e"
      by (cases "candidate env cfg (requests w) ep") auto
    have j: "j < length rest"
      using Cons.prems(1) Suc by simp
    have before: "isl (candidate env cfg (requests ?w' @ map (endpointRequest cfg) (take i rest)) (rest ! i))"
      if "i < j" for i
      using Cons.prems(2) [of "Suc i"] that Suc by simp
    have at: "candidate env cfg (requests ?w' @ map (endpointRequest cfg) (take j rest)) (rest ! j) = Inr ps"
      using Cons.prems(3) Suc by simp
    have "tryEndpoints env cfg (ep # rest) lastErr w = tryEndpoints env cfg rest (Some e) ?w'"
      by (simp only: tryEndpoints_Cons e sum.case)
    also have "\<dots> = (Inr ps, ?w'\<lparr>requests := requests ?w' @ map (endpointRequest cfg) (take (Suc j) rest)\<rparr>)"
      using j before at by (rule Cons.IH)
    finally show ?thesis
      by (simp add: Suc)
  qed
qed

lemma tryEndpoints_ledger:
  "processedApps (snd (tryEndpoints env cfg eps lastErr w)) = processedApps w
   \<and> calls (snd (tryEndpoints env cfg eps lastErr w)) = calls w
   \<and> sleeps (snd (tryEndpoints env cfg eps lastErr w)) = sleeps w"
proof (induction eps arbitrary: lastErr w)
  case Nil
  show ?case by simp
next
  case (Cons ep rest)
  show ?case
    by (cases "candidate env cfg (requests w) ep") (simp_all add: tryEndpoints_Cons Cons.IH)
qed

lemma tryEndpoints_failed_requests:
  "fst (tryEndpoints env cfg eps lastErr w) = Inl err \<Longrightarrow>
   requests (snd (tryEndpoints env cfg eps lastErr w)) = requests w @ map (endpointRequest cfg) eps"
proof (induction eps arbitrary: lastErr w)
  case Nil
  show ?case by simp
next
  case (Cons ep rest)
  then show ?case
    by (cases "candidate env cfg (requests w) ep") (simp_all add: tryEndpoints_Cons)
qed

lemma createBlueprint_log:
  "createBlueprint env cfg bp w = (r, w') \<Longrightarrow>
   calls w' = calls w @ [(bp, r)] \<and> processedApps w' = processedApps w \<and> sleeps w' = sleeps w"
  by (auto simp: createBlueprint_def createBlueprintResult_def Let_def
           split: sum.splits http_result.splits prod.splits if_splits)

lemma retryLoop_log:
  "retryLoop env cfg bp a lastErr w = (r, w') \<Longrightarrow>
   \<exists>es. calls w' = calls w @ map (\<lambda>e. (bp, Some e)) es @ (if r = None then [(bp, None)] else [])
      \<and> processedApps w' = processedApps w
      \<and> (r \<noteq> None \<longrightarrow>
           length es = nat (RetryAttempts cfg + 1 - a)
         \<and> r = Some (AllAttemptsFailed (RetryAttempts cfg)
                      (if es = [] then lastErr else Some (last es)))
         \<and> sleeps w' = sleeps w @ replicate (nat (RetryAttempts cfg - a)) (RetryDelay cfg))"
proof (induction env cfg bp a lastErr w arbitrary: r w' rule: retryLoop.induct)
  case (1 env cfg bp a lastErr w)
  show ?case
  proof (cases "a \<le> RetryAttempts cfg")
    case False
    with "1.prems" have "r = Some (AllAttemptsFailed (RetryAttempts cfg) lastErr)" "w' = w"
      by (simp_all add: retryLoop.simps [of env cfg bp a lastErr w])
    with False show ?thesis
      by (intro exI [of _ "[]"]) simp
  next
    case True
    obtain r0 w0 where cb: "createBlueprint env cfg bp w = (r0, w0)"
      by (cases "createBlueprint env cfg bp w")
    note log0 = createBlueprint_log [OF cb]
    show ?thesis
    proof (cases r0)
      case None
      with "1.prems" True cb have "r = None" "w' = w0"
        by (simp_all add: retryLoop.simps [of env cfg bp a lastErr w])
      with log0 None show ?thesis
        by (intro exI [of _ "[]"]) simp
    next
      case (Some err)
      let ?w1 = "if a < RetryAttempts cfg then w0\<lparr>sleeps := sleeps w0 @ [RetryDelay cfg]\<rparr> else w0"
      from "1.prems" True cb Some
      have rec: "retryLoop env cfg bp (a + 1) (Some err) ?w1 = (r, w')"
        by (simp add: retryLoop.simps [of env cfg bp a lastErr w])
      from "1.IH" [OF True cb [symmetric] Some rec]
      obtain es where es:
        "calls w' = calls ?w1 @ map (\<lambda>e. (bp, Some e)) es @ (if r = None then [(bp, None)] else [])"
        "processedApps w' = processedApps ?w1"
        "r \<noteq> None \<longrightarrow>
           length es = nat (RetryAttempts cfg + 1 - (a + 1))
         \<and> r = Some (AllAttemptsFailed (RetryAttempts cfg)
                      (if es = [] then Some err else Some (last es)))
         \<and> sleeps w' = sleeps ?w1 @ replicate (nat (RetryAttempts cfg - (a + 1))) (RetryDelay cfg)"
        by blast
      have c: "calls ?w1 = calls w @ [(bp, Some err)]" and p: "processedApps ?w1 = processedApps w"
        using log0 Some by simp_all
      have s: "sleeps ?w1 @ replicate (nat (RetryAttempts cfg - (a + 1))) (RetryDelay cfg)
               = sleeps w @ replicate (nat (RetryAttempts cfg - a)) (RetryDelay cfg)"
      proof (cases "a < RetryAttempts cfg")
        case True
        then have "nat (RetryAttempts cfg - a) = Suc (nat (RetryAttempts cfg - (a + 1)))"
          by simp
        with True log0 show ?thesis
          by (simp add: replicate_append_same)
      next
        case False
        with log0 show ?thesis by simp
      qed
      have l: "Suc (nat (RetryAttempts cfg + 1 - (a + 1))) = nat (RetryAttempts cfg + 1 - a)"
        using True by simp
      show ?thesis
        using es c p s l by (intro exI [of _ "err # es"]) auto
    qed
  qed
qed

lemma retryLoop_always_fails:
  "(\<And>w. fst (createBlueprint env cfg bp w) \<noteq> None) \<Longrightarrow>
   fst (retryLoop env cfg bp a lastErr w) \<noteq> None"
proof (induction env cfg bp a lastErr w rule: retryLoop.induct)
  case (1 env cfg bp a lastErr w)
  show ?case
  proof (cases "a \<le> RetryAttempts cfg")
    case False
    then show ?thesis
      by (simp add: retryLoop.simps [of env cfg bp a lastErr w])
  next
    case True
    obtain r0 w0 where cb: "createBlueprint env cfg bp w = (r0, w0)"
      by (cases "createBlueprint env cfg bp w")
    with "1.prems" [of w] obtain err where err: "r0 = Some err"
      by (cases r0) auto
    from "1.IH" [OF True cb [symmetric] err] "1.prems"
    show ?thesis
      using True cb err by (simp add: retryLoop.simps [of env cfg bp a lastErr w])
  qed
qed

lemma mapIndex_upd: "mapIndex (m(k \<mapsto> True)) n = (n = k \<or> mapIndex m n)"
  by (simp add: mapIndex_def)

lemma resolveTargetPort_nonzero: "resolveTargetPort app domain \<noteq> 0"
  by (simp add: resolveTargetPort_def)

lemma processAppDomain_marked:
  "\<not> ForceSync cfg \<Longrightarrow> mapIndex (processedApps w) (resourceName env (app, domain)) \<Longrightarrow>
   processAppDomain env cfg app domain w = (None, w)"
  by (simp add: processAppDomain_def resourceName_def)

lemma processAppDomain_empty_host:
  "ForceSync cfg \<or> \<not> mapIndex (processedApps w) (resourceName env (app, domain)) \<Longrightarrow>
   Domain_Host domain = [] \<Longrightarrow>
   processAppDomain env cfg app domain w = (Some DomainHostEmpty, w)"
  by (auto simp: processAppDomain_def resourceName_def)

lemma processAppDomain_publish:
  "ForceSync cfg \<or> \<not> mapIndex (processedApps w) (resourceName env (app, domain)) \<Longrightarrow>
   Domain_Host domain \<noteq> [] \<Longrightarrow>
   processAppDomain env cfg app domain w =
     (case createBlueprintWithRetry env cfg (derivedBlueprint env app domain) w of
        (Some err, w') \<Rightarrow> (Some (FailedToCreateBlueprint err), w')
      | (None, w') \<Rightarrow>
          (None, w'\<lparr>processedApps := (processedApps w')(resourceName env (app, domain) \<mapsto> True)\<rparr>))"
  unfolding processAppDomain_def resourceName_def derivedBlueprint_def Let_def
  by (auto simp: resolveTargetPort_nonzero split: prod.splits option.splits)

lemma publishedNames_append [simp]:
  "publishedNames (xs @ ys) = publishedNames xs @ publishedNames ys"
  by (simp add: publishedNames_def)

lemma publishedNames_Nil [simp]: "publishedNames [] = []"
  by (simp add: publishedNames_def)

lemma publishedNames_failed [simp]:
  "publishedNames (map (\<lambda>e. (bp, Some e)) es) = []"
  by (induction es) (simp_all add: publishedNames_def)

lemma publishedNames_derived [simp]:
  "publishedNames [(derivedBlueprint env app domain, None)] = [resourceName env (app, domain)]"
  by (simp add: publishedNames_def derivedBlueprint_def resourceName_def)

lemma createBlueprintWithRetry_log:
  assumes "createBlueprintWithRetry env cfg bp w = (r, w')"
  shows "publishedNames (calls w') =
           publishedNames (calls w) @ (if r = None then publishedNames [(bp, None)] else [])"
    and "processedApps w' = processedApps w"
proof -
  from retryLoop_log [OF assms [unfolded createBlueprintWithRetry_def]]
  obtain es where
    "calls w' = calls w @ map (\<lambda>e. (bp, Some e)) es @ (if r = None then [(bp, None)] else [])"
    "processedApps w' = processedApps w"
    by blast
  then show "publishedNames (calls w') =
           publishedNames (calls w) @ (if r = None then publishedNames [(bp, None)] else [])"
    and "processedApps w' = processedApps w"
    by simp_all
qed

lemma processAppDomain_cases:
  obtains
    (marked) "\<not> ForceSync cfg" "mapIndex (processedApps w) (resourceName env (app, domain))"
      "processAppDomain env cfg app domain w = (None, w)"
  | (empty) "Domain_Host domain = []"
      "processAppDomain env cfg app domain w = (Some DomainHostEmpty, w)"
  | (failed) err w' where "Domain_Host domain \<noteq> []"
      "ForceSync cfg \<or> \<not> mapIndex (processedApps w) (resourceName env (app, domain))"
      "processAppDomain env cfg app domain w = (Some (FailedToCreateBlueprint err), w')"
      "publishedNames (calls w') = publishedNames (calls w)"
      "processedApps w' = processedApps w"
  | (published) w' where "Domain_Host domain \<noteq> []"
      "ForceSync cfg \<or> \<not> mapIndex (processedApps w) (resourceName env (app, domain))"
      "processAppDomain env cfg app domain w = (None, w')"
      "publishedNames (calls w') = publishedNames (calls w) @ [resourceName env (app, domain)]"
      "processedApps w' = (processedApps w)(resourceName env (app, domain) \<mapsto> True)"
proof (cases "\<not> ForceSync cfg \<and> mapIndex (processedApps w) (resourceName env (app, domain))")
  case True
  then show ?thesis
    using marked processAppDomain_marked by blast
next
  case guard: False
  show ?thesis
  proof (cases "Domain_Host domain = []")
    case True
    with guard show ?thesis
      using empty processAppDomain_empty_host by blast
  next
    case host: False
    from guard have g: "ForceSync cfg \<or> \<not> mapIndex (processedApps w) (resourceName env (app, domain))"
      by blast
    obtain r w1 where cb: "createBlueprintWithRetry env cfg (derivedBlueprint env app domain) w = (r, w1)"
      by (cases "createBlueprintWithRetry env cfg (derivedBlueprint env app domain) w")
    note log = createBlueprintWithRetry_log [OF cb]
    show ?thesis
    proof (cases r)
      case None
      with cb have "processAppDomain env cfg app domain w =
          (None, w1\<lparr>processedApps := (processedApps w1)(resourceName env (app, domain) \<mapsto> True)\<rparr>)"
        by (simp add: processAppDomain_publish [OF g host])
      with log None host g show ?thesis
        by (intro published [of "w1\<lparr>processedApps := (processedApps w1)(resourceName env (app, domain) \<mapsto> True)\<rparr>"]) simp_all
    next
      case (Some err)
      with cb have "processAppDomain env cfg app domain w = (Some (FailedToCreateBlueprint err), w1)"
        by (simp add: processAppDomain_publish [OF g host])
      with log Some host g show ?thesis
        by (intro failed [of err w1]) simp_all
    qed
  qed
qed

lemma processAppDomain_publishedOnce:
  assumes "\<not> ForceSync cfg" and "publishedOnce w"
  shows "publishedOnce (snd (processAppDomain env cfg app domain w))"
proof (cases rule: processAppDomain_cases [of cfg w env app domain])
  case marked
  with assms show ?thesis by simp
next
  case empty
  with assms show ?thesis by simp
next
  case (failed err w')
  with assms show ?thesis by (simp add: publishedOnce_def)
next
  case (published w')
  let ?name = "resourceName env (app, domain)"
  from assms published have unmarked: "\<not> mapIndex (processedApps w) ?name"
    by blast
  have old: "count_list (publishedNames (calls w)) n \<le> (if mapIndex (processedApps w) n then 1 else 0)" for n
    using assms(2) by (simp add: publishedOnce_def)
  have "count_list (publishedNames (calls w')) n \<le> (if mapIndex (processedApps w') n then 1 else 0)" for n
  proof (cases "n = ?name")
    case True
    from old [of ?name] unmarked have "count_list (publishedNames (calls w)) ?name = 0"
      by simp
    with True published show ?thesis
      by (simp add: mapIndex_upd)
  next
    case False
    with published old [of n] show ?thesis
      by (simp add: mapIndex_upd)
  qed
  with published show ?thesis
    by (simp add: publishedOnce_def)
qed

lemma processAppDomain_keeps_mark:
  "mapIndex (processedApps w) n \<Longrightarrow>
   mapIndex (processedApps (snd (processAppDomain env cfg app domain w))) n"
  by (cases rule: processAppDomain_cases [of cfg w env app domain]) (auto simp: mapIndex_upd)

lemma processAppDomain_success_marked:
  "fst (processAppDomain env cfg app domain w) = None \<Longrightarrow>
   mapIndex (processedApps (snd (processAppDomain env cfg app domain w)))
     (resourceName env (app, domain))"
  by (cases rule: processAppDomain_cases [of cfg w env app domain]) (auto simp: mapIndex_upd)


lemma processDomains_preserves:
  assumes step: "\<And>app domain w. P w \<Longrightarrow> P (snd (processAppDomain env cfg app domain w))"
  shows "P w \<Longrightarrow> P (snd (processDomains env cfg app ds c w))"
proof (induction ds arbitrary: c w)
  case Nil
  then show ?case by simp
next
  case (Cons domain rest)
  obtain r w1 where pad: "processAppDomain env cfg app domain w = (r, w1)"
    by (cases "processAppDomain env cfg app domain w")
  with step [OF Cons.prems, of app domain] have "P w1"
    by simp
  with pad show ?case
    by (cases r) (simp_all add: Cons.IH)
qed

lemma processApps_preserves:
  assumes step: "\<And>app domain w. P w \<Longrightarrow> P (snd (processAppDomain env cfg app domain w))"
  shows "P w \<Longrightarrow> P (snd (processApps env cfg apps c w))"
proof (induction apps arbitrary: c w)
  case Nil
  then show ?case by simp
next
  case (Cons app rest)
  obtain c1 w1 where pd: "processDomains env cfg app (App_Domains app) c w = (c1, w1)"
    by (cases "processDomains env cfg app (App_Domains app) c w")
  with processDomains_preserves [of P env cfg, OF step Cons.prems, of app "App_Domains app" c]
  have "P w1"
    by simp
  with pd Cons.prems show ?case
    by (simp add: Cons.IH)
qed

lemma processProjects_preserves:
  assumes step: "\<And>app domain w. P w \<Longrightarrow> P (snd (processAppDomain env cfg app domain w))"
  shows "P w \<Longrightarrow> P (snd (processProjects env cfg projects c w))"
proof (induction projects arbitrary: c w)
  case Nil
  then show ?case by simp
next
  case (Cons project rest)
  obtain c1 w1 where a: "processApps env cfg (Project_Applications project) c w = (c1, w1)"
    by (cases "processApps env cfg (Project_Applications project) c w")
  obtain c2 w2 where b: "processApps env cfg (Project_Compose project) c1 w1 = (c2, w2)"
    by (cases "processApps env cfg (Project_Compose project) c1 w1")
  from processApps_preserves [of P env cfg, OF step Cons.prems, of "Project_Applications project" c] a
  have "P w1"
    by simp
  from processApps_preserves [of P env cfg, OF step this, of "Project_Compose project" c1] b
  have "P w2"
    by simp
  with a b show ?case
    by (simp add: Cons.IH)
qed

lemma tryEndpoints_only_requests:
  "\<exists>rs. snd (tryEndpoints env cfg eps lastErr w) = w\<lparr>requests := rs\<rparr>"
proof (induction eps arbitrary: lastErr w)
  case Nil
  have "w = w\<lparr>requests := requests w\<rparr>" by simp
  then show ?case by (metis tryEndpoints.simps(1) snd_conv)
next
  case (Cons ep rest)
  show ?case
  proof (cases "candidate env cfg (requests w) ep")
    case (Inl e)
    from Cons.IH [of "Some e" "w\<lparr>requests := requests w @ [endpointRequest cfg ep]\<rparr>"]
    show ?thesis
      by (auto simp: tryEndpoints_Cons Inl)
  next
    case (Inr ps)
    then show ?thesis
      by (auto simp: tryEndpoints_Cons)
  qed
qed

lemma syncApps_preserves:
  assumes step: "\<And>app domain w. P w \<Longrightarrow> P (snd (processAppDomain env cfg app domain w))"
    and req: "\<And>w rs. P w \<Longrightarrow> P (w\<lparr>requests := rs\<rparr>)"
  shows "P w \<Longrightarrow> P (snd (syncApps env cfg w))"
proof -
  assume w: "P w"
  obtain x w1 where g: "getDokployProjects env cfg w = (x, w1)"
    by (cases "getDokployProjects env cfg w")
  from tryEndpoints_only_requests [of env cfg endpoints None w] g
  obtain rs where "w1 = w\<lparr>requests := rs\<rparr>"
    by (auto simp: getDokployProjects_def)
  with req [OF w] have w1: "P w1"
    by simp
  show ?thesis
  proof (cases x)
    case (Inl err)
    with g w1 show ?thesis by (simp add: syncApps_def)
  next
    case (Inr projects)
    with g processProjects_preserves [of P env cfg, OF step w1, of projects
        "\<lparr>processed = 0, skipped = 0, errors = 0\<rparr>"]
    show ?thesis
      by (auto simp: syncApps_def split: prod.splits)
  qed
qed

lemma mainProcess_preserves:
  assumes step: "\<And>app domain w. P w \<Longrightarrow> P (snd (processAppDomain env cfg app domain w))"
    and req: "\<And>w rs. P w \<Longrightarrow> P (w\<lparr>requests := rs\<rparr>)"
    and init: "P NewDockOtter"
  shows "P (mainProcess env cfg ticks)"
proof -
  have pass: "P w \<Longrightarrow> P (snd (syncApps env cfg w))" for w
    using step req by (rule syncApps_preserves)
  have loop: "P w \<Longrightarrow> P (tickerLoop env cfg k w)" for k w
    by (induction k arbitrary: w) (simp_all add: pass)
  have test: "P (snd (testConnectivity env cfg w))" if "P w" for w
  proof -
    from tryEndpoints_only_requests [of env cfg endpoints None w]
    obtain rs where "snd (getDokployProjects env cfg w) = w\<lparr>requests := rs\<rparr>"
      by (auto simp: getDokployProjects_def)
    then show ?thesis
      using req [OF that, of rs] req [OF that]
      by (cases "getDokployProjects env cfg w")
         (auto simp: testConnectivity_def split: sum.splits)
  qed
  show ?thesis
    using init by (simp add: mainProcess_def Run_def Let_def pass loop test)
qed

section \<open>The inventory reader\<close>

text \<open>
  C5. The reader tries the four candidate endpoints in order. If the candidates before
  number \<open>k\<close> fail and candidate \<open>k\<close> answers 200 with a body that decodes, its inventory
  is returned and exactly the requests of the candidates up to \<open>k\<close> were sent, none of a
  later one. If every candidate fails, the error wraps the failure of the last one alone,
  after one request for each candidate.
\<close>

theorem getDokployProjects_first_success:
  "(k < length endpoints \<and> (\<forall>i<k. isl (candidateAt env cfg w i))
      \<and> candidateAt env cfg w k = Inr projects
    \<longrightarrow> getDokployProjects env cfg w =
          (Inr projects,
           w\<lparr>requests := requests w @ map (endpointRequest cfg) (take (Suc k) endpoints)\<rparr>))
   \<and> ((\<forall>i<length endpoints. isl (candidateAt env cfg w i))
    \<longrightarrow> getDokployProjects env cfg w =
          (Inl (AllEndpointsFailed (Some (projl (candidateAt env cfg w 3)))),
           w\<lparr>requests := requests w @ map (endpointRequest cfg) endpoints\<rparr>))"
proof (intro conjI impI)
  assume "k < length endpoints \<and> (\<forall>i<k. isl (candidateAt env cfg w i))
      \<and> candidateAt env cfg w k = Inr projects"
  then show "getDokployProjects env cfg w =
          (Inr projects,
           w\<lparr>requests := requests w @ map (endpointRequest cfg) (take (Suc k) endpoints)\<rparr>)"
    unfolding getDokployProjects_def candidateAt_def
    by (intro tryEndpoints_first_success) blast+
next
  assume all: "\<forall>i<length endpoints. isl (candidateAt env cfg w i)"
  have last: "butlast endpoints = take 3 endpoints" "last endpoints = endpoints ! 3"
    "endpoints \<noteq> []"
    by (simp_all add: endpoints_def)
  from all have "tryEndpoints env cfg endpoints None w =
       (Inl (AllEndpointsFailed
              (if endpoints = [] then None
               else Some (projl (candidate env cfg
                    (requests w @ map (endpointRequest cfg) (butlast endpoints))
                    (last endpoints))))),
        w\<lparr>requests := requests w @ map (endpointRequest cfg) endpoints\<rparr>)"
    unfolding candidateAt_def by (intro tryEndpoints_all_fail) blast
  then show "getDokployProjects env cfg w =
          (Inl (AllEndpointsFailed (Some (projl (candidateAt env cfg w 3)))),
           w\<lparr>requests := requests w @ map (endpointRequest cfg) endpoints\<rparr>)"
    by (simp add: getDokployProjects_def candidateAt_def last)
qed

theorem getDokployProjects_first_success_witness:
  "getDokployProjects (envServing sampleProjects) sampleConfig NewDockOtter =
     (Inr sampleProjects,
      NewDockOtter\<lparr>requests := [GET ''http://dokploy:3000/api/projects'',
                                 GET ''http://dokploy:3000/api/project/all'']\<rparr>)
   \<and> fst (getDokployProjects envFailing sampleConfig NewDockOtter) =
       Inl (AllEndpointsFailed (Some (EndpointStatus ''/api/applications'' 503)))"
proof -
  have first: "candidateAt (envServing sampleProjects) sampleConfig NewDockOtter 0
                 = Inl (EndpointStatus ''/api/projects'' 404)"
    by (simp add: candidateAt_def candidate_def endpointRequest_def endpoints_def
          envServing_def sampleConfig_def NewDockOtter_def)
  have second: "candidateAt (envServing sampleProjects) sampleConfig NewDockOtter (Suc 0)
                 = Inr sampleProjects"
    by (simp add: candidateAt_def candidate_def endpointRequest_def endpoints_def
          envServing_def sampleConfig_def NewDockOtter_def)
  have hyp1: "1 < length endpoints
      \<and> (\<forall>i<1. isl (candidateAt (envServing sampleProjects) sampleConfig NewDockOtter i))
      \<and> candidateAt (envServing sampleProjects) sampleConfig NewDockOtter 1 = Inr sampleProjects"
    by (simp add: first second endpoints_def)
  have down: "candidateAt envFailing sampleConfig NewDockOtter i
                = Inl (EndpointStatus (endpoints ! i) (500 + int i))" if "i < 4" for i
    using that
    by (simp add: candidateAt_def candidate_def endpointRequest_def endpoints_def
          envFailing_def NewDockOtter_def)
  have hyp2: "\<forall>i<length endpoints. isl (candidateAt envFailing sampleConfig NewDockOtter i)"
    by (simp add: down endpoints_def)
  from getDokployProjects_first_success
         [of 1 "envServing sampleProjects" sampleConfig NewDockOtter sampleProjects] hyp1
  have a: "getDokployProjects (envServing sampleProjects) sampleConfig NewDockOtter =
     (Inr sampleProjects,
      NewDockOtter\<lparr>requests := requests NewDockOtter
          @ map (endpointRequest sampleConfig) (take (Suc 1) endpoints)\<rparr>)"
    by blast
  from getDokployProjects_first_success [of k envFailing sampleConfig NewDockOtter] hyp2
  have b: "fst (getDokployProjects envFailing sampleConfig NewDockOtter) =
        Inl (AllEndpointsFailed (Some (projl (candidateAt envFailing sampleConfig NewDockOtter 3))))"
    for k :: nat
    by simp
  have r: "requests NewDockOtter @ map (endpointRequest sampleConfig) (take (Suc 1) endpoints)
             = [GET ''http://dokploy:3000/api/projects'',
                GET ''http://dokploy:3000/api/project/all'']"
    by (simp add: endpoints_def endpointRequest_def sampleConfig_def NewDockOtter_def)
  have l: "projl (candidateAt envFailing sampleConfig NewDockOtter 3)
             = EndpointStatus ''/api/applications'' 503"
    using down [of 3] by (simp add: endpoints_def)
  show ?thesis
    unfolding a b r l by simp
qed

text \<open>
  C8. When the fetch of the inventory fails, the pass returns that failure, wrapped, and
  reports no counters; it has sent the four requests of the fetch and nothing else, has
  not invoked the publisher, and the ledger is as it was before the pass.
\<close>

theorem syncApps_fetch_failure:
  "fst (getDokployProjects env cfg w) = Inl err \<Longrightarrow>
   fst (syncApps env cfg w) = Inl (FailedToGetProjects err)
   \<and> processedApps (snd (syncApps env cfg w)) = processedApps w
   \<and> calls (snd (syncApps env cfg w)) = calls w
   \<and> sleeps (snd (syncApps env cfg w)) = sleeps w
   \<and> requests (snd (syncApps env cfg w)) = requests w @ map (endpointRequest cfg) endpoints"
proof -
  assume failed: "fst (getDokployProjects env cfg w) = Inl err"
  obtain w1 where g: "getDokployProjects env cfg w = (Inl err, w1)"
    using failed by (cases "getDokployProjects env cfg w") simp
  then have s: "syncApps env cfg w = (Inl (FailedToGetProjects err), w1)"
    by (simp add: syncApps_def)
  have w1: "w1 = snd (tryEndpoints env cfg endpoints None w)"
    using g by (simp add: getDokployProjects_def)
  have "requests w1 = requests w @ map (endpointRequest cfg) endpoints"
    unfolding w1 using failed
    by (intro tryEndpoints_failed_requests [of _ _ _ _ _ err]) (simp add: getDokployProjects_def)
  with s w1 tryEndpoints_ledger [of env cfg endpoints None w] show ?thesis
    by simp
qed

theorem syncApps_fetch_failure_witness:
  "fst (syncApps envFailing sampleConfig
          (NewDockOtter\<lparr>processedApps := [''web-a-io'' \<mapsto> True]\<rparr>))
     = Inl (FailedToGetProjects
             (AllEndpointsFailed (Some (EndpointStatus ''/api/applications'' 503))))
   \<and> processedApps (snd (syncApps envFailing sampleConfig
          (NewDockOtter\<lparr>processedApps := [''web-a-io'' \<mapsto> True]\<rparr>)))
     = [''web-a-io'' \<mapsto> True]
   \<and> calls (snd (syncApps envFailing sampleConfig
          (NewDockOtter\<lparr>processedApps := [''web-a-io'' \<mapsto> True]\<rparr>))) = []"
proof -
  let ?w = "NewDockOtter\<lparr>processedApps := [''web-a-io'' \<mapsto> True]\<rparr>"
  have failed: "fst (getDokployProjects envFailing sampleConfig ?w)
      = Inl (AllEndpointsFailed (Some (EndpointStatus ''/api/applications'' 503)))"
    by (simp add: getDokployProjects_def endpoints_def tryEndpoints_Cons candidate_def
          endpointRequest_def envFailing_def NewDockOtter_def)
  from syncApps_fetch_failure [OF failed] show ?thesis
    by (simp add: NewDockOtter_def)
qed

section \<open>A pass as a sequence of bindings\<close>


lemma tally_Nil [simp]: "tally [] 0 c = c"
  by (simp add: tally_def)
















section \<open>Processing one binding\<close>

text \<open>
  C10. When the force flag is off and the ledger holds the resource name of a binding,
  processing it returns success with the state unchanged, whatever its host is: no
  validation, no port, no request. The pass adds it to the processed counter and leaves
  the skipped counter alone.
\<close>

theorem processAppDomain_already_published:
  "\<not> ForceSync cfg \<Longrightarrow>
   mapIndex (processedApps w) (generateResourceName env (App_Name app) (Domain_Host domain)) \<Longrightarrow>
   processAppDomain env cfg app domain w = (None, w)
   \<and> processDomains env cfg app (domain # rest) c w
       = processDomains env cfg app rest (c\<lparr>processed := processed c + 1\<rparr>) w
   \<and> processApps env cfg [app\<lparr>App_Status := ''done'', App_Domains := [domain]\<rparr>] c w
       = (c\<lparr>processed := processed c + 1\<rparr>, w)"
proof -
  assume a: "\<not> ForceSync cfg"
    "mapIndex (processedApps w) (generateResourceName env (App_Name app) (Domain_Host domain))"
  have p: "processAppDomain env cfg app' domain w = (None, w)" if "App_Name app' = App_Name app" for app'
    using a that by (simp add: processAppDomain_marked resourceName_def)
  show ?thesis
    by (simp add: p)
qed

theorem processAppDomain_already_published_witness:
  "processAppDomain envFailing sampleConfig (sampleApp ''web'' [sampleDomain []]) (sampleDomain [])
       (NewDockOtter\<lparr>processedApps := [''web-'' \<mapsto> True]\<rparr>)
     = (None, NewDockOtter\<lparr>processedApps := [''web-'' \<mapsto> True]\<rparr>)
   \<and> fst (processApps envFailing sampleConfig [sampleApp ''web'' [sampleDomain []]]
            \<lparr>processed = 0, skipped = 0, errors = 0\<rparr>
            (NewDockOtter\<lparr>processedApps := [''web-'' \<mapsto> True]\<rparr>))
     = \<lparr>processed = 1, skipped = 0, errors = 0\<rparr>"
proof -
  let ?w = "NewDockOtter\<lparr>processedApps := [''web-'' \<mapsto> True]\<rparr>"
  have n: "generateResourceName envFailing ''web'' [] = ''web-''"
    by code_simp
  have f: "\<not> ForceSync sampleConfig"
    by (simp add: sampleConfig_def)
  have m: "mapIndex (processedApps ?w)
             (generateResourceName envFailing (App_Name (sampleApp ''web'' [sampleDomain []]))
                (Domain_Host (sampleDomain [])))"
    by (simp add: n sampleApp_def sampleDomain_def mapIndex_def)
  have e: "(sampleApp ''web'' [sampleDomain []])\<lparr>App_Status := ''done'', App_Domains := [sampleDomain []]\<rparr>
            = sampleApp ''web'' [sampleDomain []]"
    by (simp add: sampleApp_def)
  from processAppDomain_already_published [OF f m, of "[]" "\<lparr>processed = 0, skipped = 0, errors = 0\<rparr>"]
  show ?thesis
    by (simp add: e)
qed

text \<open>
  C6, as amended. For a binding with the empty host whose resource name the ledger does
  not hold, or with the force flag on, processing fails with the empty-host error and
  changes nothing; the pass counts it as errored and goes on with the bindings after it.
\<close>

theorem processAppDomain_empty_host_error:
  "Domain_Host domain = [] \<Longrightarrow>
   ForceSync cfg \<or> \<not> mapIndex (processedApps w) (generateResourceName env (App_Name app) []) \<Longrightarrow>
   processAppDomain env cfg app domain w = (Some DomainHostEmpty, w)
   \<and> processDomains env cfg app (domain # rest) c w
       = processDomains env cfg app rest (c\<lparr>errors := errors c + 1\<rparr>) w"
proof -
  assume a: "Domain_Host domain = []"
    "ForceSync cfg \<or> \<not> mapIndex (processedApps w) (generateResourceName env (App_Name app) [])"
  then have "processAppDomain env cfg app domain w = (Some DomainHostEmpty, w)"
    by (intro processAppDomain_empty_host) (simp_all add: resourceName_def)
  then show ?thesis
    by simp
qed

theorem processAppDomain_empty_host_error_witness:
  "processAppDomain (envServing sampleProjects) sampleConfig
       (sampleApp ''web'' [sampleDomain ''a.io'', sampleDomain []]) (sampleDomain []) NewDockOtter
     = (Some DomainHostEmpty, NewDockOtter)"
proof -
  have h: "Domain_Host (sampleDomain []) = []"
    by (simp add: sampleDomain_def)
  have m: "ForceSync sampleConfig \<or> \<not> mapIndex (processedApps NewDockOtter)
     (generateResourceName (envServing sampleProjects)
        (App_Name (sampleApp ''web'' [sampleDomain ''a.io'', sampleDomain []])) [])"
    by (simp add: NewDockOtter_def mapIndex_def)
  from processAppDomain_empty_host_error [OF h m] show ?thesis
    by simp
qed

theorem processAppDomain_empty_host_counterexample:
  "Domain_Host (sampleDomain []) = []
   \<and> fst (processAppDomain (envServing collidingProjects) sampleConfig
            (sampleApp ''api-v2'' [sampleDomain []]) (sampleDomain []) collidingLedger) = None
   \<and> fst (syncApps (envServing collidingProjects) sampleConfig NewDockOtter)
       = Inr \<lparr>processed = 2, skipped = 0, errors = 0\<rparr>"
  by code_simp

section \<open>Isolation of a failing binding\<close>






section \<open>The retry ceiling\<close>

lemma retryLoop_first_call:
  assumes "a \<le> RetryAttempts cfg"
  shows "\<exists>r rest. calls (snd (retryLoop env cfg bp a lastErr w)) = calls w @ (bp, r) # rest"
proof -
  obtain r0 w0 where cb: "createBlueprint env cfg bp w = (r0, w0)"
    by (cases "createBlueprint env cfg bp w")
  note log0 = createBlueprint_log [OF cb]
  show ?thesis
  proof (cases r0)
    case None
    with assms cb log0 show ?thesis
      by (simp add: retryLoop.simps [of env cfg bp a lastErr w])
  next
    case (Some err)
    let ?w1 = "if a < RetryAttempts cfg then w0\<lparr>sleeps := sleeps w0 @ [RetryDelay cfg]\<rparr> else w0"
    obtain r w' where rec: "retryLoop env cfg bp (a + 1) (Some err) ?w1 = (r, w')"
      by (cases "retryLoop env cfg bp (a + 1) (Some err) ?w1")
    from retryLoop_log [OF rec] obtain es where
      "calls w' = calls ?w1 @ map (\<lambda>e. (bp, Some e)) es @ (if r = None then [(bp, None)] else [])"
      by blast
    moreover have "calls ?w1 = calls w @ [(bp, Some err)]"
      using log0 Some by simp
    moreover have "retryLoop env cfg bp a lastErr w = (r, w')"
      using assms cb Some rec by (simp add: retryLoop.simps [of env cfg bp a lastErr w])
    ultimately show ?thesis
      by simp
  qed
qed

text \<open>
  C4. With \<open>RetryAttempts\<close> at least 1 and a publisher that fails at every invocation,
  \<open>createBlueprintWithRetry\<close> invokes \<open>createBlueprint\<close> exactly \<open>RetryAttempts\<close> times,
  pauses between two attempts only, and returns an error that wraps the failure of the
  last invocation and no other; the ledger is unchanged. A binding that reaches the
  publisher is then counted as errored after exactly these invocations.
\<close>

theorem createBlueprintWithRetry_ceiling:
  assumes retries: "1 \<le> RetryAttempts cfg"
    and fails: "\<forall>blueprint w. fst (createBlueprint env cfg blueprint w) \<noteq> None"
  shows "(\<exists>es w'. length es = nat (RetryAttempts cfg)
           \<and> createBlueprintWithRetry env cfg bp w
               = (Some (AllAttemptsFailed (RetryAttempts cfg) (Some (last es))), w')
           \<and> calls w' = calls w @ map (\<lambda>e. (bp, Some e)) es
           \<and> sleeps w' = sleeps w @ replicate (nat (RetryAttempts cfg - 1)) (RetryDelay cfg)
           \<and> processedApps w' = processedApps w)
     \<and> (Domain_Host domain \<noteq> []
          \<and> (ForceSync cfg \<or> \<not> mapIndex (processedApps w)
                 (generateResourceName env (App_Name app) (Domain_Host domain)))
        \<longrightarrow> (\<exists>es w'. length es = nat (RetryAttempts cfg)
           \<and> processAppDomain env cfg app domain w
               = (Some (FailedToCreateBlueprint
                          (AllAttemptsFailed (RetryAttempts cfg) (Some (last es)))), w')
           \<and> calls w' = calls w @ map (\<lambda>e. (derivedBlueprint env app domain, Some e)) es
           \<and> processDomains env cfg app [domain] c w = (c\<lparr>errors := errors c + 1\<rparr>, w')))"
proof -
  have retry: "\<exists>es w'. length es = nat (RetryAttempts cfg)
           \<and> createBlueprintWithRetry env cfg b w
               = (Some (AllAttemptsFailed (RetryAttempts cfg) (Some (last es))), w')
           \<and> calls w' = calls w @ map (\<lambda>e. (b, Some e)) es
           \<and> sleeps w' = sleeps w @ replicate (nat (RetryAttempts cfg - 1)) (RetryDelay cfg)
           \<and> processedApps w' = processedApps w" for b
  proof -
    obtain r w' where loop: "retryLoop env cfg b 1 None w = (r, w')"
      by (cases "retryLoop env cfg b 1 None w")
    from fails have "fst (retryLoop env cfg b 1 None w) \<noteq> None"
      by (intro retryLoop_always_fails) simp
    with loop have r: "r \<noteq> None"
      by simp
    from retryLoop_log [OF loop] r obtain es where es:
      "calls w' = calls w @ map (\<lambda>e. (b, Some e)) es"
      "processedApps w' = processedApps w"
      "length es = nat (RetryAttempts cfg)"
      "r = Some (AllAttemptsFailed (RetryAttempts cfg) (if es = [] then None else Some (last es)))"
      "sleeps w' = sleeps w @ replicate (nat (RetryAttempts cfg - 1)) (RetryDelay cfg)"
      by auto
    from es(3) retries have "es \<noteq> []"
      by auto
    with es loop show ?thesis
      by (auto simp: createBlueprintWithRetry_def)
  qed
  have binding: "\<exists>es w'. length es = nat (RetryAttempts cfg)
           \<and> processAppDomain env cfg app domain w
               = (Some (FailedToCreateBlueprint
                          (AllAttemptsFailed (RetryAttempts cfg) (Some (last es)))), w')
           \<and> calls w' = calls w @ map (\<lambda>e. (derivedBlueprint env app domain, Some e)) es
           \<and> processDomains env cfg app [domain] c w = (c\<lparr>errors := errors c + 1\<rparr>, w')"
    if host: "Domain_Host domain \<noteq> []"
      and guard: "ForceSync cfg \<or> \<not> mapIndex (processedApps w)
                 (generateResourceName env (App_Name app) (Domain_Host domain))"
  proof -
    from retry [of "derivedBlueprint env app domain"] obtain es w' where es:
      "length es = nat (RetryAttempts cfg)"
      "createBlueprintWithRetry env cfg (derivedBlueprint env app domain) w
         = (Some (AllAttemptsFailed (RetryAttempts cfg) (Some (last es))), w')"
      "calls w' = calls w @ map (\<lambda>e. (derivedBlueprint env app domain, Some e)) es"
      by blast
    from guard have "ForceSync cfg \<or> \<not> mapIndex (processedApps w) (resourceName env (app, domain))"
      by (simp add: resourceName_def)
    from processAppDomain_publish [OF this host] es(2)
    have "processAppDomain env cfg app domain w
        = (Some (FailedToCreateBlueprint
                  (AllAttemptsFailed (RetryAttempts cfg) (Some (last es)))), w')"
      by simp
    with es(1,3) show ?thesis
      by (intro exI [of _ es] exI [of _ w']) simp
  qed
  from retry [of bp] binding show ?thesis
    by blast
qed

theorem createBlueprintWithRetry_ceiling_witness:
  "length (calls (snd (createBlueprintWithRetry envFailing sampleConfig
        (derivedBlueprint envFailing (sampleApp ''web'' []) (sampleDomain ''a.io''))
        NewDockOtter))) = 3
   \<and> map snd (calls (snd (createBlueprintWithRetry envFailing sampleConfig
        (derivedBlueprint envFailing (sampleApp ''web'' []) (sampleDomain ''a.io''))
        NewDockOtter)))
      = [Some (PangolinStatus 500 ''busy''), Some (PangolinStatus 501 ''busy''),
         Some (PangolinStatus 502 ''busy'')]
   \<and> fst (createBlueprintWithRetry envFailing sampleConfig
        (derivedBlueprint envFailing (sampleApp ''web'' []) (sampleDomain ''a.io''))
        NewDockOtter)
      = Some (AllAttemptsFailed 3 (Some (PangolinStatus 502 ''busy'')))
   \<and> fst (processDomains envFailing sampleConfig (sampleApp ''web'' [])
            [sampleDomain ''a.io''] \<lparr>processed = 0, skipped = 0, errors = 0\<rparr> NewDockOtter)
      = \<lparr>processed = 0, skipped = 0, errors = 1\<rparr>"
proof -
  let ?bp = "derivedBlueprint envFailing (sampleApp ''web'' []) (sampleDomain ''a.io'')"
  let ?c = "\<lparr>processed = 0, skipped = 0, errors = 0\<rparr>"
  have retries: "1 \<le> RetryAttempts sampleConfig"
    by (simp add: sampleConfig_def)
  have fails: "\<forall>blueprint w. fst (createBlueprint envFailing sampleConfig blueprint w) \<noteq> None"
    by (simp add: createBlueprint_def createBlueprintResult_def envFailing_def Let_def)
  have guard: "Domain_Host (sampleDomain ''a.io'') \<noteq> []
          \<and> (ForceSync sampleConfig \<or> \<not> mapIndex (processedApps NewDockOtter)
                 (generateResourceName envFailing (App_Name (sampleApp ''web'' []))
                    (Domain_Host (sampleDomain ''a.io''))))"
    by (simp add: sampleDomain_def NewDockOtter_def mapIndex_def)
  note inst = createBlueprintWithRetry_ceiling
    [OF retries fails, of ?bp NewDockOtter "sampleDomain ''a.io''" "sampleApp ''web'' []" ?c]
  from inst obtain es w' where es: "length es = nat (RetryAttempts sampleConfig)"
    "createBlueprintWithRetry envFailing sampleConfig ?bp NewDockOtter
       = (Some (AllAttemptsFailed (RetryAttempts sampleConfig) (Some (last es))), w')"
    "calls w' = calls NewDockOtter @ map (\<lambda>e. (?bp, Some e)) es"
    by blast
  then have len: "length (calls (snd (createBlueprintWithRetry envFailing sampleConfig ?bp
        NewDockOtter))) = 3"
    by (simp add: sampleConfig_def NewDockOtter_def)
  from inst guard obtain es2 w2 where
    "processDomains envFailing sampleConfig (sampleApp ''web'' []) [sampleDomain ''a.io''] ?c
       NewDockOtter = (?c\<lparr>errors := errors ?c + 1\<rparr>, w2)"
    by blast
  then have counted: "fst (processDomains envFailing sampleConfig (sampleApp ''web'' [])
            [sampleDomain ''a.io''] ?c NewDockOtter) = \<lparr>processed = 0, skipped = 0, errors = 1\<rparr>"
    by simp
  have log: "map snd (calls (snd (createBlueprintWithRetry envFailing sampleConfig ?bp NewDockOtter)))
      = [Some (PangolinStatus 500 ''busy''), Some (PangolinStatus 501 ''busy''),
         Some (PangolinStatus 502 ''busy'')]"
    by code_simp
  have res: "fst (createBlueprintWithRetry envFailing sampleConfig ?bp NewDockOtter)
      = Some (AllAttemptsFailed 3 (Some (PangolinStatus 502 ''busy'')))"
    by code_simp
  from len log res counted show ?thesis
    by (intro conjI)
qed

section \<open>Idempotency of publishing\<close>

lemma publishedOnce_count:
  "publishedOnce w \<Longrightarrow> count_list (publishedNames (calls w)) n \<le> 1"
proof -
  assume "publishedOnce w"
  then have "count_list (publishedNames (calls w)) n
               \<le> (if mapIndex (processedApps w) n then 1 else 0)"
    by (simp add: publishedOnce_def)
  then show ?thesis
    by (simp split: if_splits)
qed

text \<open>
  C3. With the force flag off, in the whole life of a process (the single pass of the
  run-once mode, or the connectivity test, the initial pass and any number of passes of
  the ticker) every resource name is published at most once. A binding processed with
  success has its name in the ledger, the ledger keeps a name through every later pass,
  and with the flag off a binding whose name the ledger holds is refused: nothing is
  sent. With the flag on the ledger is not consulted: a binding with a host is sent to
  the publisher whatever the ledger holds.
\<close>

theorem published_at_most_once:
  "(\<not> ForceSync cfg
      \<longrightarrow> count_list (publishedNames (calls (mainProcess env cfg ticks))) name \<le> 1)
   \<and> (fst (processAppDomain env cfg app domain w) = None
      \<longrightarrow> mapIndex (processedApps (snd (processAppDomain env cfg app domain w)))
            (generateResourceName env (App_Name app) (Domain_Host domain)))
   \<and> (mapIndex (processedApps w) name
      \<longrightarrow> mapIndex (processedApps (snd (syncApps env cfg w))) name)
   \<and> (\<not> ForceSync cfg
        \<and> mapIndex (processedApps w)
            (generateResourceName env (App_Name app) (Domain_Host domain))
      \<longrightarrow> processAppDomain env cfg app domain w = (None, w))
   \<and> (ForceSync cfg \<and> Domain_Host domain \<noteq> [] \<and> 1 \<le> RetryAttempts cfg
      \<longrightarrow> (\<exists>r rest. calls (snd (processAppDomain env cfg app domain w))
                        = calls w @ (derivedBlueprint env app domain, r) # rest))"
proof (intro conjI impI)
  assume off: "\<not> ForceSync cfg"
  have "publishedOnce (mainProcess env cfg ticks)"
  proof (rule mainProcess_preserves)
    show "publishedOnce (snd (processAppDomain env cfg a d v))" if "publishedOnce v" for a d v
      using off that by (rule processAppDomain_publishedOnce)
    show "publishedOnce (v\<lparr>requests := rs\<rparr>)" if "publishedOnce v" for v rs
      using that by (simp add: publishedOnce_def)
    show "publishedOnce NewDockOtter"
      by (simp add: publishedOnce_def NewDockOtter_def)
  qed
  then show "count_list (publishedNames (calls (mainProcess env cfg ticks))) name \<le> 1"
    by (rule publishedOnce_count)
next
  assume "fst (processAppDomain env cfg app domain w) = None"
  then show "mapIndex (processedApps (snd (processAppDomain env cfg app domain w)))
            (generateResourceName env (App_Name app) (Domain_Host domain))"
    using processAppDomain_success_marked [of env cfg app domain w]
    by (simp add: resourceName_def)
next
  assume marked: "mapIndex (processedApps w) name"
  show "mapIndex (processedApps (snd (syncApps env cfg w))) name"
  proof (rule syncApps_preserves [where P = "\<lambda>v. mapIndex (processedApps v) name"])
    show "mapIndex (processedApps (snd (processAppDomain env cfg a d v))) name"
      if "mapIndex (processedApps v) name" for a d v
      using that by (rule processAppDomain_keeps_mark)
    show "mapIndex (processedApps (v\<lparr>requests := rs\<rparr>)) name"
      if "mapIndex (processedApps v) name" for v rs
      using that by simp
    show "mapIndex (processedApps w) name"
      by (rule marked)
  qed
next
  assume "\<not> ForceSync cfg
        \<and> mapIndex (processedApps w)
            (generateResourceName env (App_Name app) (Domain_Host domain))"
  then show "processAppDomain env cfg app domain w = (None, w)"
    by (intro processAppDomain_marked) (simp_all add: resourceName_def)
next
  assume a: "ForceSync cfg \<and> Domain_Host domain \<noteq> [] \<and> 1 \<le> RetryAttempts cfg"
  let ?bp = "derivedBlueprint env app domain"
  from a have g: "ForceSync cfg \<or> \<not> mapIndex (processedApps w) (resourceName env (app, domain))"
    and host: "Domain_Host domain \<noteq> []" and n: "1 \<le> RetryAttempts cfg"
    by simp_all
  obtain r0 w0 where cb: "createBlueprintWithRetry env cfg ?bp w = (r0, w0)"
    by (cases "createBlueprintWithRetry env cfg ?bp w")
  from retryLoop_first_call [OF n, of env ?bp None w] cb
  obtain r rest where "calls w0 = calls w @ (?bp, r) # rest"
    by (auto simp: createBlueprintWithRetry_def)
  moreover have "calls (snd (processAppDomain env cfg app domain w)) = calls w0"
    using cb by (cases r0) (simp_all add: processAppDomain_publish [OF g host])
  ultimately show "\<exists>r rest. calls (snd (processAppDomain env cfg app domain w))
                        = calls w @ (?bp, r) # rest"
    by auto
qed

theorem published_at_most_once_witness:
  "count_list (publishedNames
       (calls (mainProcess (envServing sampleProjects) sampleConfig 2))) ''web-a-io'' \<le> 1
   \<and> 0 < count_list (publishedNames
       (calls (mainProcess (envServing sampleProjects) sampleConfig 2))) ''web-a-io''
   \<and> mapIndex (processedApps (snd (processAppDomain (envServing sampleProjects) sampleConfig
        (sampleApp ''web'' []) (sampleDomain ''a.io'') NewDockOtter))) ''web-a-io''
   \<and> mapIndex (processedApps (snd (syncApps (envServing sampleProjects) sampleConfig
        (NewDockOtter\<lparr>processedApps := [''web-a-io'' \<mapsto> True]\<rparr>)))) ''web-a-io''
   \<and> processAppDomain (envServing sampleProjects) sampleConfig
        (sampleApp ''web'' []) (sampleDomain ''a.io'')
        (NewDockOtter\<lparr>processedApps := [''web-a-io'' \<mapsto> True]\<rparr>)
       = (None, NewDockOtter\<lparr>processedApps := [''web-a-io'' \<mapsto> True]\<rparr>)
   \<and> (\<exists>r rest. calls (snd (processAppDomain (envServing sampleProjects)
          (sampleConfig\<lparr>ForceSync := True\<rparr>) (sampleApp ''web'' []) (sampleDomain ''a.io'')
          (NewDockOtter\<lparr>processedApps := [''web-a-io'' \<mapsto> True]\<rparr>)))
        = calls (NewDockOtter\<lparr>processedApps := [''web-a-io'' \<mapsto> True]\<rparr>)
          @ (derivedBlueprint (envServing sampleProjects) (sampleApp ''web'' [])
               (sampleDomain ''a.io''), r) # rest)"
proof -
  let ?env = "envServing sampleProjects"
  let ?app = "sampleApp ''web'' []"
  let ?dom = "sampleDomain ''a.io''"
  let ?w = "NewDockOtter\<lparr>processedApps := [''web-a-io'' \<mapsto> True]\<rparr>"
  have off: "\<not> ForceSync sampleConfig"
    by (simp add: sampleConfig_def)
  have name: "generateResourceName ?env (App_Name ?app) (Domain_Host ?dom) = ''web-a-io''"
    by code_simp
  have ok: "fst (processAppDomain ?env sampleConfig ?app ?dom NewDockOtter) = None"
    by code_simp
  have marked: "mapIndex (processedApps ?w) ''web-a-io''"
    by (simp add: mapIndex_def)
  have force: "ForceSync (sampleConfig\<lparr>ForceSync := True\<rparr>) \<and> Domain_Host ?dom \<noteq> []
                 \<and> 1 \<le> RetryAttempts (sampleConfig\<lparr>ForceSync := True\<rparr>)"
    by (simp add: sampleConfig_def sampleDomain_def)
  have some: "0 < count_list (publishedNames (calls (mainProcess ?env sampleConfig 2))) ''web-a-io''"
    by code_simp
  note a = published_at_most_once [of sampleConfig ?env 2 "''web-a-io''" ?app ?dom NewDockOtter]
  note b = published_at_most_once [of sampleConfig ?env 2 "''web-a-io''" ?app ?dom ?w]
  note c = published_at_most_once
             [of "sampleConfig\<lparr>ForceSync := True\<rparr>" ?env 2 "''web-a-io''" ?app ?dom ?w]
  from a off have 1: "count_list (publishedNames (calls (mainProcess ?env sampleConfig 2)))
                        ''web-a-io'' \<le> 1"
    by blast
  from a ok name have 2: "mapIndex (processedApps (snd (processAppDomain ?env sampleConfig
        ?app ?dom NewDockOtter))) ''web-a-io''"
    by simp
  from b marked have 3: "mapIndex (processedApps (snd (syncApps ?env sampleConfig ?w))) ''web-a-io''"
    by blast
  from b off marked name have 4: "processAppDomain ?env sampleConfig ?app ?dom ?w = (None, ?w)"
    by simp
  from c force have 5: "\<exists>r rest. calls (snd (processAppDomain ?env
          (sampleConfig\<lparr>ForceSync := True\<rparr>) ?app ?dom ?w))
        = calls ?w @ (derivedBlueprint ?env ?app ?dom, r) # rest"
    by blast
  from 1 some 2 3 4 5 show ?thesis
    by (intro conjI)
qed

end
